theory Spec2Isabelle
  imports Complex_Main "HOL-Library.Multiset" "HOL-Library.Char_ord" "HOL-Library.List_Lexorder"
begin

section \<open>The dataset\<close>

text \<open>
  The application (\<^verbatim>\<open>EinschulungsProject.py\<close>) keeps the loaded CSV file as a pandas
  DataFrame with the columns \<^verbatim>\<open>Entity\<close>, \<^verbatim>\<open>Continent\<close>, \<^verbatim>\<open>Year\<close> and
  \<^verbatim>\<open>Combined total net enrolment rate, primary, both sexes\<close>. A DataFrame is modelled as
  the list of its rows, in file order. Strings are byte lists (UTF-8), whose lexicographic
  order is Python's code point order. The rate column holds floats; the model uses exact
  rationals for them, so rounding of float arithmetic and missing values (NaN cells) are
  outside the model.
\<close>

record row =
  Entity :: string
  Continent :: string
  Year :: int
  enrolment_rate :: rat

type_synonym dataframe = "row list"

text \<open>\<^verbatim>\<open>Series.unique()\<close>: the distinct values in order of first appearance.\<close>

definition unique :: "'a list \<Rightarrow> 'a list" where
  "unique xs = rev (remdups (rev xs))"

text \<open>
  \<^verbatim>\<open>DataFrame.sort_values(by=rate, ascending=False)\<close>. pandas leaves the order of rows
  with equal keys open (its default sort is not stable); the model keeps them in file
  order, and no theorem below depends on that choice.
\<close>

definition sort_values_desc :: "('a \<Rightarrow> rat) \<Rightarrow> 'a list \<Rightarrow> 'a list" where
  "sort_values_desc key xs = sort_key (\<lambda>x. - key x) xs"

section \<open>Selection state of the bar and scatter diagrams\<close>

text \<open>
  \<^verbatim>\<open>BarDiagram\<close> and \<^verbatim>\<open>ScatterPlot\<close> carry the same fields: the DataFrame (\<^verbatim>\<open>None\<close>
  until a file is loaded), the text variables of the two comboboxes together with the
  entries the comboboxes offer, the highlighted country and the dictionary
  \<^verbatim>\<open>countries_by_continent\<close>.
\<close>

record diagram =
  df :: "dataframe option"
  continent_var :: string
  continent_values :: "string list"
  country_var :: string
  country_values :: "string list"
  highlight_country :: "string option"
  countries_by_continent :: "string \<rightharpoonup> string list"

definition Alle :: string where
  "Alle = ''Alle''"

text \<open>The entry \<^verbatim>\<open>"Alle L\"ander"\<close>; the umlaut is the two bytes of its UTF-8 encoding.\<close>

definition Alle_Laender :: string where
  "Alle_Laender = ''Alle L'' @ [CHR 0xC3, CHR 0xA4] @ ''nder''"

definition init_diagram :: diagram where
  "init_diagram = \<lparr> df = None, continent_var = [], continent_values = [],
     country_var = [], country_values = [], highlight_country = None,
     countries_by_continent = Map.empty \<rparr>"

definition countries_of :: "dataframe \<Rightarrow> string \<Rightarrow> string list" where
  "countries_of rows continent =
     sort (remdups (map Entity (filter (\<lambda>r. Continent r = continent) rows)))"

definition build_countries_by_continent :: "dataframe \<Rightarrow> string list \<Rightarrow> string \<rightharpoonup> string list" where
  "build_countries_by_continent rows continents =
     foldl (\<lambda>m c. m(c \<mapsto> countries_of rows c))
       [Alle \<mapsto> sort (remdups (map Entity rows))] continents"

text \<open>
  \<^verbatim>\<open>set_data\<close> of both classes: fill the comboboxes, select their first entries
  (\<^verbatim>\<open>current(0)\<close>) and build the dictionary.
\<close>

definition load_selectors :: "dataframe \<Rightarrow> diagram \<Rightarrow> diagram" where
  "load_selectors rows st =
     (let continents = sort (remdups (map Continent rows));
          cbc = build_countries_by_continent rows continents;
          alle = (case cbc Alle of Some cs \<Rightarrow> cs | None \<Rightarrow> [])
      in st\<lparr> df := Some rows,
             continent_values := Alle # continents,
             continent_var := Alle,
             countries_by_continent := cbc,
             country_values := Alle_Laender # alle,
             country_var := Alle_Laender \<rparr>)"

definition bar_set_data :: "dataframe option \<Rightarrow> diagram \<Rightarrow> diagram" where
  "bar_set_data d st = (case d of None \<Rightarrow> st\<lparr> df := None \<rparr> | Some rows \<Rightarrow> load_selectors rows st)"

definition scatter_set_data :: "dataframe option \<Rightarrow> diagram \<Rightarrow> diagram" where
  "scatter_set_data d st = (case d of None \<Rightarrow> st\<lparr> df := None \<rparr> | Some rows \<Rightarrow> load_selectors rows st)"

text \<open>
  \<^verbatim>\<open>on_continent_selected\<close> and \<^verbatim>\<open>on_country_selected\<close>, the same code in both classes.
  The handlers read the text variable that the combobox has just set.
\<close>

definition on_continent_selected :: "diagram \<Rightarrow> diagram" where
  "on_continent_selected st =
     (let selected_continent = continent_var st;
          st1 = (case countries_by_continent st selected_continent of
                   Some countries \<Rightarrow>
                     st\<lparr> country_values := Alle_Laender # countries,
                         country_var := hd (Alle_Laender # countries) \<rparr>
                 | None \<Rightarrow> st)
      in st1\<lparr> highlight_country := None \<rparr>)"

definition on_country_selected :: "diagram \<Rightarrow> diagram" where
  "on_country_selected st =
     (let selected_country = country_var st
      in if selected_country = Alle_Laender then st\<lparr> highlight_country := None \<rparr>
         else st\<lparr> highlight_country := Some selected_country \<rparr>)"

text \<open>
  The user events: a read-only combobox stores the chosen entry in its text variable and
  then fires \<^verbatim>\<open><<ComboboxSelected>>\<close>.
\<close>

definition select_continent :: "string \<Rightarrow> diagram \<Rightarrow> diagram" where
  "select_continent c st = on_continent_selected (st\<lparr> continent_var := c \<rparr>)"

definition select_country :: "string \<Rightarrow> diagram \<Rightarrow> diagram" where
  "select_country c st = on_country_selected (st\<lparr> country_var := c \<rparr>)"

section \<open>The bar diagram\<close>

datatype colour = Orange | Skyblue

record bar =
  bar_entity :: string
  bar_value :: rat
  bar_year :: int
  bar_colour :: colour

datatype bar_axes = BarText string | Bars string "bar list"

definition fuer :: string where
  "fuer = ''f'' @ [CHR 0xC3, CHR 0xBC] @ ''r''"

text \<open>
  \<^verbatim>\<open>BarDiagram.update\<close>. The result is \<^verbatim>\<open>None\<close> when no file is loaded (the method
  returns at once), a text in the axes when the selection is empty, and otherwise the
  title and the bars in drawing order; every bar has the entity as its tick label, the
  rate as its height, the year written at its foot, and its colour.
\<close>

definition bar_update :: "diagram \<Rightarrow> bar_axes option" where
  "bar_update st =
     (case df st of
        None \<Rightarrow> None
      | Some rows \<Rightarrow>
          (let selected_continent = continent_var st;
               filtered_df = (if selected_continent = Alle then rows
                              else filter (\<lambda>r. Continent r = selected_continent) rows);
               title = (if selected_continent = Alle
                        then ''Einschulungsrate auf allen Kontinenten''
                        else ''Einschulungsrate - '' @ selected_continent);
               sorted_df = sort_values_desc enrolment_rate filtered_df
           in if sorted_df = []
              then Some (BarText (''Keine Daten '' @ fuer @ '' '' @ selected_continent @ '' vorhanden''))
              else Some (Bars title
                     (map (\<lambda>r. \<lparr> bar_entity = Entity r, bar_value = enrolment_rate r,
                                 bar_year = Year r,
                                 bar_colour = (if highlight_country st = Some (Entity r)
                                               then Orange else Skyblue) \<rparr>)
                          sorted_df))))"

text \<open>The series a bar chart carries: one (entity, rate, year) per bar; no bar otherwise.\<close>

fun bar_series :: "bar_axes option \<Rightarrow> (string \<times> rat \<times> int) list" where
  "bar_series (Some (Bars title bars)) = map (\<lambda>b. (bar_entity b, bar_value b, bar_year b)) bars"
| "bar_series _ = []"

definition example_dataset :: dataframe where
  "example_dataset =
     [\<lparr> Entity = ''Ghana'', Continent = ''Africa'', Year = 2010, enrolment_rate = 125 / 2 \<rparr>,
      \<lparr> Entity = ''Kenya'', Continent = ''Africa'', Year = 2012, enrolment_rate = 74 \<rparr>,
      \<lparr> Entity = ''France'', Continent = ''Europe'', Year = 2015, enrolment_rate = 991 / 10 \<rparr>]"

section \<open>The scatter plot\<close>

text \<open>
  What \<^verbatim>\<open>ScatterPlot.update\<close> puts into the axes: the title, the connected lines drawn
  by \<^verbatim>\<open>ax.plot(years, values, 'o-')\<close>, the texts written by \<^verbatim>\<open>ax.text\<close> (position and
  the value whose \<^verbatim>\<open>.1f\<close> rendering is shown), the labelled point clouds drawn by
  \<^verbatim>\<open>ax.scatter\<close>, and the legend (its number of columns) when \<^verbatim>\<open>ax.legend\<close> is called.
\<close>

record scatter_axes =
  sc_title :: string
  sc_lines :: "(int \<times> rat) list list"
  sc_texts :: "(int \<times> rat \<times> rat) list"
  sc_scatters :: "(string \<times> (int \<times> rat) list) list"
  sc_legend :: "nat option"

datatype scatter_result = ScatterText string | ScatterAxes scatter_axes

definition keine_daten_filter :: string where
  "keine_daten_filter = ''Keine Daten '' @ fuer @ '' die ausgew'' @ [CHR 0xC3, CHR 0xA4]
     @ ''hlten Filter vorhanden''"

definition points :: "dataframe \<Rightarrow> (int \<times> rat) list" where
  "points rows = map (\<lambda>r. (Year r, enrolment_rate r)) rows"

definition scatter_update :: "diagram \<Rightarrow> scatter_result option" where
  "scatter_update st =
     (case df st of
        None \<Rightarrow> None
      | Some rows \<Rightarrow>
          (let selected_continent = continent_var st;
               selected_country = country_var st;
               by_continent = (if selected_continent = Alle then rows
                               else filter (\<lambda>r. Continent r = selected_continent) rows);
               title1 = (if selected_continent = Alle
                         then ''Einschulungsrate im Zeitverlauf - Alle Kontinente''
                         else ''Einschulungsrate im Zeitverlauf - '' @ selected_continent);
               single = (selected_country \<noteq> Alle_Laender);
               filtered_df = (if single
                              then filter (\<lambda>r. Entity r = selected_country) by_continent
                              else by_continent);
               title = (if single then ''Einschulungsrate im Zeitverlauf - '' @ selected_country
                        else title1)
           in if filtered_df = [] then Some (ScatterText keine_daten_filter)
              else if single then
                Some (ScatterAxes
                  \<lparr> sc_title = title,
                    sc_lines = [points filtered_df],
                    sc_texts = map (\<lambda>(x, y). (x, y + 1, y)) (points filtered_df),
                    sc_scatters = [],
                    sc_legend = None \<rparr>)
              else
                (let countries = unique (map Entity filtered_df)
                 in Some (ScatterAxes
                      \<lparr> sc_title = title,
                        sc_lines = [],
                        sc_texts = [],
                        sc_scatters =
                          concat (map (\<lambda>country.
                              let country_data = filter (\<lambda>r. Entity r = country) filtered_df
                              in if length (points country_data) > 0
                                 then [(country, points country_data)] else [])
                            countries),
                        sc_legend = (if length countries > 1 \<and> length countries \<le> 15
                                     then Some (min 5 (length countries)) else None) \<rparr>))))"

text \<open>Readers of the result; a result without axes content has no line, legend or text.\<close>

fun trend_lines :: "scatter_result option \<Rightarrow> (int \<times> rat) list list" where
  "trend_lines (Some (ScatterAxes ax)) = sc_lines ax"
| "trend_lines _ = []"



text \<open>The rows the trend chart works on after the continent filter.\<close>

definition continent_rows :: "diagram \<Rightarrow> dataframe \<Rightarrow> dataframe" where
  "continent_rows st rows =
     (if continent_var st = Alle then rows
      else filter (\<lambda>r. Continent r = continent_var st) rows)"

definition unsorted_ghana :: dataframe where
  "unsorted_ghana =
     [\<lparr> Entity = ''Ghana'', Continent = ''Africa'', Year = 2012, enrolment_rate = 74 \<rparr>,
      \<lparr> Entity = ''Ghana'', Continent = ''Africa'', Year = 2010, enrolment_rate = 125 / 2 \<rparr>]"


section \<open>Rendering numbers\<close>

text \<open>\<^verbatim>\<open>str(n)\<close> for an integer: decimal digits, with a minus sign for negative numbers.\<close>

definition digit_char :: "nat \<Rightarrow> char" where
  "digit_char d = ''0123456789'' ! d"

fun str_nat :: "nat \<Rightarrow> string" where
  "str_nat n = (if n < 10 then [digit_char n] else str_nat (n div 10) @ [digit_char (n mod 10)])"

declare str_nat.simps [simp del]

definition str_int :: "int \<Rightarrow> string" where
  "str_int i = (if i < 0 then CHR ''-'' # str_nat (nat (- i)) else str_nat (nat i))"

text \<open>
  Rounding to the nearest integer, ties to the even neighbour, as the format
  \<^verbatim>\<open>.0f\<close> rounds.
\<close>

definition round_half_even :: "rat \<Rightarrow> int" where
  "round_half_even x =
     (let f = \<lfloor>x\<rfloor>; d = x - of_int f
      in if d < 1 / 2 then f
         else if 1 / 2 < d then f + 1
         else if even f then f else f + 1)"

section \<open>Python floats\<close>

datatype pyfloat = Finite rat | PosInf | NegInf | NaN

fun py_lt :: "pyfloat \<Rightarrow> pyfloat \<Rightarrow> bool" where
  "py_lt NaN _ = False"
| "py_lt _ NaN = False"
| "py_lt (Finite a) (Finite b) = (a < b)"
| "py_lt (Finite a) PosInf = True"
| "py_lt (Finite a) NegInf = False"
| "py_lt PosInf _ = False"
| "py_lt NegInf NegInf = False"
| "py_lt NegInf _ = True"

fun py_add :: "pyfloat \<Rightarrow> pyfloat \<Rightarrow> pyfloat" where
  "py_add NaN _ = NaN"
| "py_add _ NaN = NaN"
| "py_add (Finite a) (Finite b) = Finite (a + b)"
| "py_add PosInf NegInf = NaN"
| "py_add NegInf PosInf = NaN"
| "py_add PosInf _ = PosInf"
| "py_add _ PosInf = PosInf"
| "py_add NegInf _ = NegInf"
| "py_add _ NegInf = NegInf"

definition py_min :: "pyfloat \<Rightarrow> pyfloat \<Rightarrow> pyfloat" where
  "py_min a b = (if py_lt b a then b else a)"

definition py_max :: "pyfloat \<Rightarrow> pyfloat \<Rightarrow> pyfloat" where
  "py_max a b = (if py_lt a b then b else a)"

fun fmt0 :: "pyfloat \<Rightarrow> string" where
  "fmt0 (Finite x) = (if x < 0 \<and> round_half_even x = 0 then ''-0'' else str_int (round_half_even x))"
| "fmt0 PosInf = ''inf''"
| "fmt0 NegInf = ''-inf''"
| "fmt0 NaN = ''nan''"

partial_function (option) bins_loop :: "pyfloat \<Rightarrow> pyfloat \<Rightarrow> pyfloat list \<Rightarrow> pyfloat list option" where
  "bins_loop step_val current bins =
     (if py_lt current (Finite 100)
      then (let current' = py_min (py_add current step_val) (Finite 100)
            in bins_loop step_val current' (bins @ [current']))
      else Some bins)"

declare bins_loop.simps [code]

section \<open>The pie diagram\<close>

text \<open>
  The arguments of a call \<^verbatim>\<open>ax.pie(values, labels=labels, explode=explode, ...)\<close>.
\<close>

record 'v pie_call =
  p_values :: "'v list"
  p_labels :: "string list"
  p_explode :: "rat list option"

datatype error = ValueError string | OtherError string

fun str_error :: "error \<Rightarrow> string" where
  "str_error (ValueError msg) = msg"
| "str_error (OtherError msg) = msg"

definition mean :: "rat list \<Rightarrow> rat" where
  "mean xs = sum_list xs / of_nat (length xs)"

text \<open>
  \<^verbatim>\<open>create_continent_avg_chart\<close>: \<^verbatim>\<open>groupby('Continent')[rate].mean()\<close> has one entry per
  continent, in ascending order of the continent name; it is then sorted by descending
  mean, and the first slice is pulled out by 0.1.
\<close>

definition create_continent_avg_chart :: "dataframe \<Rightarrow> rat pie_call \<times> string" where
  "create_continent_avg_chart rows =
     (let groups = sort (remdups (map Continent rows));
          grouped = map (\<lambda>c. (c, mean (map enrolment_rate (filter (\<lambda>r. Continent r = c) rows))))
                      groups;
          continent_avg = sort_values_desc snd grouped;
          values = map snd continent_avg;
          labels = map fst continent_avg;
          explode = map (\<lambda>i. if i = 0 then 1 / 10 else 0) [0..<length values]
      in (\<lparr> p_values = values, p_labels = labels, p_explode = Some explode \<rparr>,
          ''Durchschnittliche Einschulungsrate nach Kontinent''))"


subsection \<open>Distribution over ranges of the rate\<close>

text \<open>
  \<^verbatim>\<open>pandas.cut(x, bins=bins, labels=labels, include_lowest=True)\<close> with a list of bin
  edges. It rejects edges that decrease, repeated edges (unless there are exactly two
  edges), repeated labels and a wrong number of labels. Otherwise every value gets the
  code of its interval: \<^verbatim>\<open>searchsorted(side='left')\<close> finds the first edge not below the
  value, a value equal to the first edge is put into the first interval, and a value
  below the first edge or above the last one gets no code (NaN).
\<close>

fun decreasing_step :: "pyfloat list \<Rightarrow> bool" where
  "decreasing_step (a # b # bs) = (py_lt b a \<or> decreasing_step (b # bs))"
| "decreasing_step _ = False"

definition searchsorted_left :: "pyfloat list \<Rightarrow> pyfloat \<Rightarrow> nat" where
  "searchsorted_left bins x = length (takeWhile (\<lambda>b. py_lt b x) bins)"

definition cut_code :: "pyfloat list \<Rightarrow> rat \<Rightarrow> nat option" where
  "cut_code bins x =
     (case bins of
        [] \<Rightarrow> None
      | b0 # _ \<Rightarrow>
          (let ids = (if Finite x = b0 then 1 else searchsorted_left bins (Finite x))
           in if ids = length bins \<or> ids = 0 then None else Some (ids - 1)))"

definition pd_cut :: "rat list \<Rightarrow> pyfloat list \<Rightarrow> string list \<Rightarrow> error + nat option list" where
  "pd_cut xs bins labels =
     (if decreasing_step bins then Inl (ValueError ''bins must increase monotonically.'')
      else if length (remdups bins) < length bins \<and> length bins \<noteq> 2
        then Inl (ValueError ''Bin edges must be unique'')
      else if length (remdups labels) \<noteq> length labels
        then Inl (ValueError ''labels must be unique if ordered=True; pass ordered=False for duplicate labels'')
      else if Suc (length labels) \<noteq> length bins
        then Inl (ValueError ''Bin labels must be one fewer than the number of bin edges'')
      else Inr (map (cut_code bins) xs))"

text \<open>
  \<^verbatim>\<open>value_counts().sort_index()\<close> of a categorical series: one entry per category, in
  category order, also for a category that no value has; values without a code are not
  counted.
\<close>

definition value_counts :: "string list \<Rightarrow> nat option list \<Rightarrow> (string \<times> nat) list" where
  "value_counts labels codes =
     map (\<lambda>i. (labels ! i, length (filter (\<lambda>c. c = Some i) codes))) [0..<length labels]"

datatype range_axes = RangeText string | RangePie "nat pie_call" pyfloat pyfloat

definition clamp_min :: "pyfloat \<Rightarrow> pyfloat" where
  "clamp_min min_val = py_max (Finite 0) (py_min (Finite 100) min_val)"

definition clamp_step :: "pyfloat \<Rightarrow> pyfloat" where
  "clamp_step step_val = py_max (Finite 5) (py_min (Finite 25) step_val)"

definition make_bins :: "pyfloat \<Rightarrow> pyfloat \<Rightarrow> pyfloat list option" where
  "make_bins min_val step_val = bins_loop step_val min_val [min_val]"

definition range_labels :: "pyfloat list \<Rightarrow> string list" where
  "range_labels bins =
     map (\<lambda>i. fmt0 (bins ! i) @ ''%-'' @ fmt0 (bins ! (i + 1)) @ ''%'') [0..<length bins - 1]"

text \<open>
  The body of the \<^verbatim>\<open>try\<close> block of \<^verbatim>\<open>create_range_distribution_chart\<close>. The two
  arguments \<open>min_in\<close> and \<open>step_in\<close> are the outcomes of \<^verbatim>\<open>float(self.min_var.get())\<close> and
  \<^verbatim>\<open>float(self.step_var.get())\<close>: the exception for a text that is no number, or the
  float. The renderer \<^verbatim>\<open>ax.pie\<close> is a parameter: it returns the exception it raises, if
  any. The result is \<open>None\<close> if the \<^verbatim>\<open>while\<close> loop does not end, \<open>Inl\<close> for an exception
  raised in the block, and \<open>Inr\<close> for what the block has put into the axes.
\<close>

definition range_distribution_try ::
    "(nat pie_call \<Rightarrow> error option) \<Rightarrow> error + pyfloat \<Rightarrow> error + pyfloat \<Rightarrow> dataframe
      \<Rightarrow> (error + range_axes) option" where
  "range_distribution_try pie min_in step_in rows =
     (case min_in of
        Inl e \<Rightarrow> Some (Inl e)
      | Inr min_val0 \<Rightarrow>
     (case step_in of
        Inl e \<Rightarrow> Some (Inl e)
      | Inr step_val0 \<Rightarrow>
     (let min_val = clamp_min min_val0;
          step_val = clamp_step step_val0
      in case make_bins min_val step_val of
           None \<Rightarrow> None
         | Some bins \<Rightarrow>
             (case pd_cut (map enrolment_rate rows) bins (range_labels bins) of
                Inl e \<Rightarrow> Some (Inl e)
              | Inr binned_data \<Rightarrow>
                  (let range_counts = value_counts (range_labels bins) binned_data
                   in if length range_counts = 0
                      then Some (Inr (RangeText ''Keine Daten in den angegebenen Bereichen''))
                      else (let call = \<lparr> p_values = map snd range_counts,
                                          p_labels = map fst range_counts,
                                          p_explode = None \<rparr>
                            in case pie call of
                                 Some e \<Rightarrow> Some (Inl e)
                               | None \<Rightarrow> Some (Inr (RangePie call min_val step_val))))))))"

text \<open>
  \<^verbatim>\<open>create_range_distribution_chart\<close>: the \<^verbatim>\<open>except Exception\<close> clause writes the
  message of the exception into the axes. The result type keeps the three ways a call
  can go: \<open>None\<close> if it does not return, \<open>Inl\<close> if an exception leaves the method, and
  \<open>Inr\<close> for a normal return with the content of the axes.
\<close>

definition create_range_distribution_chart ::
    "(nat pie_call \<Rightarrow> error option) \<Rightarrow> error + pyfloat \<Rightarrow> error + pyfloat \<Rightarrow> dataframe
      \<Rightarrow> (error + range_axes) option" where
  "create_range_distribution_chart pie min_in step_in rows =
     (case range_distribution_try pie min_in step_in rows of
        None \<Rightarrow> None
      | Some (Inl e) \<Rightarrow>
          Some (Inr (RangeText (''Fehler bei der Diagrammerstellung:'' @ [CHR 0x0A] @ str_error e)))
      | Some (Inr ax) \<Rightarrow> Some (Inr ax))"

text \<open>
  The edges that the \<^verbatim>\<open>while\<close> loop appends after the edge \<open>c\<close>, for a finite positive
  step, as a total function: it serves to reason about the loop (lemma
  \<open>bins_loop_boundaries\<close> below relates the two).
\<close>

function boundaries :: "rat \<Rightarrow> rat \<Rightarrow> rat list" where
  "boundaries s c =
     (if c < 100 \<and> 0 < s then min (c + s) 100 # boundaries s (min (c + s) 100) else [])"
  by pat_completeness auto
termination
proof (relation "measure (\<lambda>(s, c). nat \<lceil>(100 - c) / s\<rceil>)")
  show "wf (measure (\<lambda>(s, c). nat \<lceil>(100 - c) / s\<rceil>))"
    by simp
next
  fix s c :: rat
  assume a: "c < 100 \<and> 0 < s"
  show "((s, min (c + s) 100), (s, c)) \<in> measure (\<lambda>(s, c). nat \<lceil>(100 - c) / s\<rceil>)"
  proof (cases "c + s \<le> 100")
    case True
    have "(100 - (c + s)) / s = (100 - c) / s - 1"
      using a by (simp add: field_simps)
    then have "\<lceil>(100 - (c + s)) / s\<rceil> = \<lceil>(100 - c) / s\<rceil> - 1"
      by simp
    moreover have "0 < \<lceil>(100 - c) / s\<rceil>"
      using a by simp
    ultimately show ?thesis
      using True by (simp add: min_def)
  next
    case False
    have "0 < \<lceil>(100 - c) / s\<rceil>"
      using a by simp
    then show ?thesis
      using False by (simp add: min_def)
  qed
qed

declare boundaries.simps [simp del]

text \<open>
  The bucket with index \<open>i\<close> over the edges \<open>bs\<close>, in the words of the specification: from
  the edge \<open>bs ! i\<close> (excluded, except for the lowest bucket) to the edge \<open>bs ! Suc i\<close>
  (included).
\<close>

definition in_bucket :: "rat list \<Rightarrow> nat \<Rightarrow> rat \<Rightarrow> bool" where
  "in_bucket bs i x = ((if i = 0 then bs ! 0 \<le> x else bs ! i < x) \<and> x \<le> bs ! Suc i)"


definition low_rates :: dataframe where
  "low_rates =
     [\<lparr> Entity = ''Chad'', Continent = ''Africa'', Year = 2010, enrolment_rate = 10 \<rparr>,
      \<lparr> Entity = ''Mali'', Continent = ''Africa'', Year = 2011, enrolment_rate = 45 \<rparr>]"

section \<open>Properties of the bar diagram\<close>

lemma mset_sort_values_desc: "mset (sort_values_desc key xs) = mset xs"
  by (simp add: sort_values_desc_def)

lemma sorted_sort_values_desc:
  "sorted_wrt (\<lambda>a b. key b \<le> key a) (sort_values_desc key xs)"
proof -
  have "sorted (map (\<lambda>x. - key x) (sort_key (\<lambda>x. - key x) xs))"
    by (rule sorted_sort_key)
  then show ?thesis
    by (simp add: sort_values_desc_def sorted_map)
qed

lemma sort_values_desc_Nil_iff: "sort_values_desc key xs = [] \<longleftrightarrow> xs = []"
  by (metis mset_sort_values_desc mset_zero_iff)

text \<open>
  C2. For every loaded dataset and every continent selection, the bars of the ranking
  chart are exactly the rows whose continent is the selected one (all rows for the
  selection "Alle"), as (entity, rate, year) triples, and they are in non-increasing
  order of the rate.
\<close>

theorem ranking_series_filtered_and_sorted:
  assumes "df st = Some rows"
  shows "mset (bar_series (bar_update st)) =
           mset (map (\<lambda>r. (Entity r, enrolment_rate r, Year r))
                  (filter (\<lambda>r. continent_var st = Alle \<or> Continent r = continent_var st) rows))
         \<and> sorted_wrt (\<lambda>a b. fst (snd b) \<le> fst (snd a)) (bar_series (bar_update st))"
proof -
  let ?sel = "filter (\<lambda>r. continent_var st = Alle \<or> Continent r = continent_var st) rows"
  let ?triple = "\<lambda>r. (Entity r, enrolment_rate r, Year r)"
  have sel: "(if continent_var st = Alle then rows
              else filter (\<lambda>r. Continent r = continent_var st) rows) = ?sel"
    by simp
  have series: "bar_series (bar_update st) = map ?triple (sort_values_desc enrolment_rate ?sel)"
    using assms sel by (simp add: bar_update_def Let_def comp_def)
  have "mset (map ?triple (sort_values_desc enrolment_rate ?sel)) = mset (map ?triple ?sel)"
    by (simp add: mset_sort_values_desc)
  moreover have "sorted_wrt (\<lambda>a b. fst (snd b) \<le> fst (snd a))
                   (map ?triple (sort_values_desc enrolment_rate ?sel))"
    using sorted_sort_values_desc [of enrolment_rate ?sel] by (simp add: sorted_wrt_map)
  ultimately show ?thesis
    by (simp only: series)
qed

theorem ranking_series_filtered_and_sorted_witness:
  "df (select_continent ''Africa'' (bar_set_data (Some example_dataset) init_diagram))
     = Some example_dataset
   \<and> bar_series (bar_update
        (select_continent ''Africa'' (bar_set_data (Some example_dataset) init_diagram)))
     = [(''Kenya'', 74, 2012), (''Ghana'', 125 / 2, 2010)]
   \<and> mset [(''Kenya'', 74, 2012), (''Ghana'', 125 / 2, 2010)]
     = mset (map (\<lambda>r. (Entity r, enrolment_rate r, Year r))
         (filter (\<lambda>r. ''Africa'' = Alle \<or> Continent r = ''Africa'') example_dataset))
   \<and> sorted_wrt (\<lambda>a b. fst (snd b) \<le> fst (snd a))
        [(''Kenya'', 74 :: rat, 2012 :: int), (''Ghana'', 125 / 2, 2010)]"
proof -
  let ?st = "select_continent ''Africa'' (bar_set_data (Some example_dataset) init_diagram)"
  have d: "df ?st = Some example_dataset"
    by (simp add: select_continent_def on_continent_selected_def bar_set_data_def
        load_selectors_def Let_def split: option.splits)
  have c: "continent_var ?st = ''Africa''"
    by (simp add: select_continent_def on_continent_selected_def bar_set_data_def
        load_selectors_def Let_def split: option.splits)
  have s: "bar_series (bar_update ?st) = [(''Kenya'', 74, 2012), (''Ghana'', 125 / 2, 2010)]"
    unfolding bar_update_def d c
    by (simp add: Let_def Alle_def example_dataset_def sort_values_desc_def)
  show ?thesis
    using ranking_series_filtered_and_sorted [OF d] d by (simp add: s c)
qed

section \<open>The cascading selection\<close>

lemma build_countries_by_continent_dom:
  "dom (foldl (\<lambda>m c. m(c \<mapsto> f c)) m0 cs) = dom m0 \<union> set cs"
  by (induction cs arbitrary: m0) auto

lemma load_selectors_offered:
  "c \<in> set (continent_values (load_selectors rows st))
   \<Longrightarrow> countries_by_continent (load_selectors rows st) c \<noteq> None"
proof -
  assume "c \<in> set (continent_values (load_selectors rows st))"
  then have "c \<in> dom (build_countries_by_continent rows (sort (remdups (map Continent rows))))"
    unfolding build_countries_by_continent_def build_countries_by_continent_dom
    by (auto simp: load_selectors_def Let_def)
  then show ?thesis
    by (auto simp: load_selectors_def Let_def)
qed

lemma select_country_keeps:
  "countries_by_continent (select_country y st) = countries_by_continent st"
  by (simp add: select_country_def on_country_selected_def Let_def)

lemma select_continent_keeps:
  "countries_by_continent (select_continent x st) = countries_by_continent st"
  by (simp add: select_continent_def on_continent_selected_def Let_def split: option.splits)

lemma select_continent_resets:
  "countries_by_continent st z \<noteq> None \<Longrightarrow>
   country_var (select_continent z st) = Alle_Laender
   \<and> highlight_country (select_continent z st) = None"
  by (auto simp: select_continent_def on_continent_selected_def Let_def split: option.splits)

text \<open>
  C7. In the bar diagram and in the scatter plot alike: after a file is loaded, a
  continent X is selected, then a country Y, and then a continent Z that the continent
  combobox offers, the country combobox shows "Alle L\"ander" again and no country is
  highlighted. This holds for every X and Y, so in particular for Y a country of X and
  Z different from X.
\<close>

theorem cascading_filter_reset:
  assumes "z \<in> set (continent_values (bar_set_data (Some rows) st))"
  shows "country_var (select_continent z (select_country y (select_continent x
            (bar_set_data (Some rows) st)))) = Alle_Laender
       \<and> highlight_country (select_continent z (select_country y (select_continent x
            (bar_set_data (Some rows) st)))) = None
       \<and> country_var (select_continent z (select_country y (select_continent x
            (scatter_set_data (Some rows) st)))) = Alle_Laender
       \<and> highlight_country (select_continent z (select_country y (select_continent x
            (scatter_set_data (Some rows) st)))) = None"
proof -
  have eq: "bar_set_data (Some rows) st = load_selectors rows st"
    "scatter_set_data (Some rows) st = load_selectors rows st"
    by (simp_all add: bar_set_data_def scatter_set_data_def)
  have "countries_by_continent (load_selectors rows st) z \<noteq> None"
    using assms load_selectors_offered by (simp add: eq)
  then have "countries_by_continent
      (select_country y (select_continent x (load_selectors rows st))) z \<noteq> None"
    by (simp add: select_country_keeps select_continent_keeps)
  from select_continent_resets [OF this] show ?thesis
    by (simp add: eq)
qed

theorem cascading_filter_reset_witness:
  "''Europe'' \<in> set (continent_values (bar_set_data (Some example_dataset) init_diagram))
   \<and> country_var (select_continent ''Europe'' (select_country ''Ghana''
        (select_continent ''Africa'' (bar_set_data (Some example_dataset) init_diagram))))
       = Alle_Laender
   \<and> highlight_country (select_continent ''Europe'' (select_country ''Ghana''
        (select_continent ''Africa'' (bar_set_data (Some example_dataset) init_diagram))))
       = None
   \<and> country_var (select_continent ''Europe'' (select_country ''Ghana''
        (select_continent ''Africa'' (scatter_set_data (Some example_dataset) init_diagram))))
       = Alle_Laender
   \<and> highlight_country (select_continent ''Europe'' (select_country ''Ghana''
        (select_continent ''Africa'' (scatter_set_data (Some example_dataset) init_diagram))))
       = None"
proof -
  have h: "''Europe'' \<in> set (continent_values (bar_set_data (Some example_dataset) init_diagram))"
    by (simp add: bar_set_data_def load_selectors_def Let_def example_dataset_def)
  show ?thesis
    using h cascading_filter_reset [OF h, of "''Ghana''" "''Africa''"] by simp
qed

section \<open>Properties of the scatter plot\<close>

lemma trend_single_entity_lines:
  assumes "df st = Some rows" and "country_var st \<noteq> Alle_Laender"
  shows "trend_lines (scatter_update st) =
     (if filter (\<lambda>r. Entity r = country_var st) (continent_rows st rows) = [] then []
      else [points (filter (\<lambda>r. Entity r = country_var st) (continent_rows st rows))])"
  using assms by (simp add: scatter_update_def continent_rows_def Let_def)

text \<open>
  C1 (the code departs from the claim). With a country selected, \<^verbatim>\<open>ScatterPlot.update\<close>
  passes the years and rates to \<^verbatim>\<open>ax.plot\<close> in the order of the rows; it does not sort
  them (lemma \<open>trend_single_entity_lines\<close>). For Ghana with the row of 2012 before the
  row of 2010 the connected line runs from 2012 back to 2010.
\<close>

theorem trend_single_entity_keeps_row_order:
  "trend_lines (scatter_update (select_country ''Ghana''
      (scatter_set_data (Some unsorted_ghana) init_diagram)))
     = [[(2012, 74), (2010, 125 / 2)]]
   \<and> \<not> sorted (map fst (hd (trend_lines (scatter_update (select_country ''Ghana''
      (scatter_set_data (Some unsorted_ghana) init_diagram))))))"
proof -
  let ?st = "select_country ''Ghana'' (scatter_set_data (Some unsorted_ghana) init_diagram)"
  have d: "df ?st = Some unsorted_ghana"
    and c: "continent_var ?st = Alle"
    and k: "country_var ?st = ''Ghana''"
    by (simp_all add: select_country_def on_country_selected_def scatter_set_data_def
        load_selectors_def Let_def)
  have ne: "''Ghana'' \<noteq> Alle_Laender"
    by (simp add: Alle_Laender_def)
  have "trend_lines (scatter_update ?st) = [[(2012, 74), (2010, 125 / 2)]]"
    unfolding scatter_update_def d c k
    by (simp add: Let_def ne unsorted_ghana_def points_def)
  then show ?thesis
    by simp
qed





section \<open>Properties of the pie diagram: averages and years\<close>

lemma sort_values_desc_set: "set (sort_values_desc key xs) = set xs"
  by (simp add: sort_values_desc_def)

lemma sort_values_desc_map_fst_distinct:
  "distinct (map f xs) \<Longrightarrow> distinct (map f (sort_values_desc key xs))"
  by (simp add: sort_values_desc_def distinct_map)

text \<open>
  C8. The chart of continent averages has one slice per continent of the dataset; the
  value of a slice is the arithmetic mean of the rates of the rows of its continent; the
  slices come in non-increasing order of the mean; and exactly the first slice is pulled
  out (explode is non-zero at index 0 only), so of several continents with the largest
  mean only the first in this order is emphasised. For the dataset Ghana (Africa, 2010,
  62.5), Kenya (Africa, 2012, 74.0), France (Europe, 2015, 99.1) the slices are Europe
  with 99.1 and Africa with 68.25, Europe pulled out.
\<close>

theorem continent_average_chart:
  "distinct (p_labels (fst (create_continent_avg_chart rows)))
   \<and> set (p_labels (fst (create_continent_avg_chart rows))) = Continent ` set rows
   \<and> p_values (fst (create_continent_avg_chart rows))
       = map (\<lambda>c. mean (map enrolment_rate (filter (\<lambda>r. Continent r = c) rows)))
           (p_labels (fst (create_continent_avg_chart rows)))
   \<and> sorted_wrt (\<lambda>a b. b \<le> a) (p_values (fst (create_continent_avg_chart rows)))
   \<and> (\<exists>ex. p_explode (fst (create_continent_avg_chart rows)) = Some ex
         \<and> length ex = length (p_values (fst (create_continent_avg_chart rows)))
         \<and> (\<forall>i < length ex. (ex ! i \<noteq> 0) = (i = 0)))
   \<and> create_continent_avg_chart example_dataset
       = (\<lparr> p_values = [991 / 10, 273 / 4], p_labels = [''Europe'', ''Africa''],
            p_explode = Some [1 / 10, 0] \<rparr>,
          ''Durchschnittliche Einschulungsrate nach Kontinent'')"
proof -
  let ?m = "\<lambda>c. mean (map enrolment_rate (filter (\<lambda>r. Continent r = c) rows))"
  let ?groups = "sort (remdups (map Continent rows))"
  let ?grouped = "map (\<lambda>c. (c, ?m c)) ?groups"
  let ?avg = "sort_values_desc snd ?grouped"
  let ?c = "fst (create_continent_avg_chart rows)"
  let ?ex = "map (\<lambda>i. if i = 0 then 1 / 10 else (0::rat)) [0..<length ?avg]"
  have labels: "p_labels ?c = map fst ?avg" and vals: "p_values ?c = map snd ?avg"
    and ex: "p_explode ?c = Some ?ex"
    by (simp_all add: create_continent_avg_chart_def Let_def)
  have "distinct (map fst ?grouped)"
    by (simp add: comp_def)
  then have d: "distinct (map fst ?avg)"
    by (rule sort_values_desc_map_fst_distinct)
  have st: "set (map fst ?avg) = Continent ` set rows"
    by (simp add: sort_values_desc_set image_image)
  have "\<And>p. p \<in> set ?avg \<Longrightarrow> snd p = ?m (fst p)"
    unfolding sort_values_desc_set by auto
  then have vm: "map snd ?avg = map ?m (map fst ?avg)"
    by simp
  have so: "sorted_wrt (\<lambda>a b. b \<le> a) (map snd ?avg)"
    using sorted_sort_values_desc [of snd ?grouped] by (simp add: sorted_wrt_map)
  have e1: "length ?ex = length (map snd ?avg)"
    by simp
  have e2: "\<forall>i < length ?ex. (?ex ! i \<noteq> 0) = (i = 0)"
    by simp
  have scen: "create_continent_avg_chart example_dataset
       = (\<lparr> p_values = [991 / 10, 273 / 4], p_labels = [''Europe'', ''Africa''],
            p_explode = Some [1 / 10, 0] \<rparr>,
          ''Durchschnittliche Einschulungsrate nach Kontinent'')"
    by code_simp
  have "\<exists>ex. p_explode ?c = Some ex \<and> length ex = length (p_values ?c)
         \<and> (\<forall>i < length ex. (ex ! i \<noteq> 0) = (i = 0))"
    unfolding ex vals using e1 e2 by blast
  then show ?thesis
    unfolding labels vals using d st vm so scen by (intro conjI)
qed

theorem continent_average_chart_witness:
  "p_labels (fst (create_continent_avg_chart example_dataset)) = [''Europe'', ''Africa'']
   \<and> p_values (fst (create_continent_avg_chart example_dataset)) = [991 / 10, 273 / 4]
   \<and> (\<exists>ex. p_explode (fst (create_continent_avg_chart example_dataset)) = Some ex
         \<and> (0::nat) < length ex \<and> ex ! 0 \<noteq> 0 \<and> 1 < length ex \<and> ex ! 1 = 0)"
proof -
  let ?c = "fst (create_continent_avg_chart example_dataset)"
  from continent_average_chart [of example_dataset]
  obtain ex where e: "p_explode ?c = Some ex" "length ex = length (p_values ?c)"
      "\<forall>i < length ex. (ex ! i \<noteq> 0) = (i = 0)"
    and scen: "create_continent_avg_chart example_dataset
       = (\<lparr> p_values = [991 / 10, 273 / 4], p_labels = [''Europe'', ''Africa''],
            p_explode = Some [1 / 10, 0] \<rparr>,
          ''Durchschnittliche Einschulungsrate nach Kontinent'')"
    by blast
  have len: "length ex = 2"
    using e(2) by (simp add: scen)
  have "(0::nat) < length ex" and "(1::nat) < length ex"
    using len by simp_all
  then have "ex ! 0 \<noteq> 0" and "ex ! 1 = 0"
    using e(3) by (blast, fastforce)
  then show ?thesis
    using e(1) len by (auto simp add: scen)
qed




section \<open>Properties of the pie diagram: the bin edges\<close>

lemma clamp_min_finite:
  "\<exists>m. clamp_min v = Finite m \<and> 0 \<le> m \<and> m \<le> 100 \<and> (\<forall>q. v = Finite q \<longrightarrow> m = max 0 (min 100 q))"
  by (cases v) (auto simp: clamp_min_def py_min_def py_max_def)

lemma clamp_step_finite:
  "\<exists>s. clamp_step v = Finite s \<and> 5 \<le> s \<and> s \<le> 25 \<and> (\<forall>q. v = Finite q \<longrightarrow> s = max 5 (min 25 q))"
  by (cases v) (auto simp: clamp_step_def py_min_def py_max_def)

lemma bins_loop_boundaries:
  "0 < s \<Longrightarrow> bins_loop (Finite s) (Finite c) acc = Some (acc @ map Finite (boundaries s c))"
proof (induction s c arbitrary: acc rule: boundaries.induct)
  case (1 s c)
  show ?case
  proof (cases "c < 100")
    case True
    have step: "py_min (Finite (c + s)) (Finite 100) = Finite (min (c + s) 100)"
      by (simp add: py_min_def min_def)
    have "bins_loop (Finite s) (Finite c) acc
        = bins_loop (Finite s) (Finite (min (c + s) 100)) (acc @ [Finite (min (c + s) 100)])"
      using True by (subst bins_loop.simps) (simp add: step Let_def)
    also have "\<dots> = Some ((acc @ [Finite (min (c + s) 100)])
                        @ map Finite (boundaries s (min (c + s) 100)))"
      using True "1.prems" by (intro "1.IH") simp_all
    also have "\<dots> = Some (acc @ map Finite (boundaries s c))"
      using True "1.prems" by (subst (2) boundaries.simps) simp
    finally show ?thesis .
  next
    case False
    then show ?thesis
      by (subst bins_loop.simps, subst boundaries.simps) simp
  qed
qed

lemma boundaries_bounds:
  "x \<in> set (boundaries s c) \<Longrightarrow> c < x \<and> x \<le> 100"
proof (induction s c rule: boundaries.induct)
  case (1 s c)
  show ?case
  proof (cases "c < 100 \<and> 0 < s")
    case True
    then have "x = min (c + s) 100 \<or> x \<in> set (boundaries s (min (c + s) 100))"
      using "1.prems" by (subst (asm) boundaries.simps) simp
    then show ?thesis
      using True "1.IH" by (auto simp: min_def split: if_splits)
  next
    case False
    then show ?thesis
      using "1.prems" by (subst (asm) boundaries.simps) simp
  qed
qed

lemma boundaries_sorted: "sorted_wrt (<) (c # boundaries s c)"
proof (induction s c rule: boundaries.induct)
  case (1 s c)
  show ?case
  proof (cases "c < 100 \<and> 0 < s")
    case True
    then have eq: "boundaries s c = min (c + s) 100 # boundaries s (min (c + s) 100)"
      by (subst boundaries.simps) simp
    have "sorted_wrt (<) (min (c + s) 100 # boundaries s (min (c + s) 100))"
      using True by (rule "1.IH")
    then have "sorted_wrt (<) (boundaries s c)"
      by (simp only: eq)
    moreover have "\<forall>x \<in> set (boundaries s c). c < x"
      using boundaries_bounds by blast
    ultimately show ?thesis
      by simp
  next
    case False
    then have "boundaries s c = []"
      by (subst boundaries.simps) simp
    then show ?thesis
      by simp
  qed
qed

lemma boundaries_last: "0 < s \<Longrightarrow> c \<le> 100 \<Longrightarrow> last (c # boundaries s c) = 100"
proof (induction s c rule: boundaries.induct)
  case (1 s c)
  show ?case
  proof (cases "c < 100")
    case True
    have "last (min (c + s) 100 # boundaries s (min (c + s) 100)) = 100"
      using True "1.prems" by (intro "1.IH") simp_all
    then show ?thesis
      using True "1.prems" by (subst boundaries.simps) simp
  next
    case False
    then show ?thesis
      using "1.prems" by (subst boundaries.simps) simp
  qed
qed

lemma boundaries_step:
  "Suc i < length (c # boundaries s c) \<Longrightarrow>
   (c # boundaries s c) ! Suc i = min ((c # boundaries s c) ! i + s) 100"
proof (induction s c arbitrary: i rule: boundaries.induct)
  case (1 s c)
  show ?case
  proof (cases "c < 100 \<and> 0 < s")
    case True
    then have eq: "boundaries s c = min (c + s) 100 # boundaries s (min (c + s) 100)"
      by (subst boundaries.simps) simp
    show ?thesis
    proof (cases i)
      case 0
      then show ?thesis by (simp add: eq)
    next
      case (Suc j)
      have "Suc j < length (min (c + s) 100 # boundaries s (min (c + s) 100))"
        using "1.prems" Suc eq by simp
      from "1.IH" [OF True this] show ?thesis
        using Suc eq by simp
    qed
  next
    case False
    then have "boundaries s c = []"
      by (subst boundaries.simps) simp
    then show ?thesis
      using "1.prems" by simp
  qed
qed



section \<open>Properties of the rendering of numbers\<close>

lemma digit_char_inj: "d < 10 \<Longrightarrow> e < 10 \<Longrightarrow> digit_char d = digit_char e \<Longrightarrow> d = e"
proof -
  assume a: "d < 10" "e < 10" "digit_char d = digit_char e"
  have "distinct ''0123456789''" by simp
  moreover have "d < length ''0123456789''" "e < length ''0123456789''"
    using a by simp_all
  ultimately show ?thesis
    using a(3) unfolding digit_char_def by (simp only: nth_eq_iff_index_eq)
qed

lemma digit_char_digit: "d < 10 \<Longrightarrow> digit_char d \<in> set ''0123456789''"
  unfolding digit_char_def by (rule nth_mem) simp

lemma str_nat_digits: "set (str_nat n) \<subseteq> set ''0123456789''"
proof (induction n rule: str_nat.induct)
  case (1 n)
  show ?case
  proof (cases "n < 10")
    case True
    then show ?thesis
      using digit_char_digit [of n] by (subst str_nat.simps) simp
  next
    case False
    have "n mod 10 < 10" by simp
    then have "digit_char (n mod 10) \<in> set ''0123456789''"
      by (rule digit_char_digit)
    then show ?thesis
      using False "1.IH" by (subst str_nat.simps) simp
  qed
qed

lemma str_nat_not_Nil: "str_nat n \<noteq> []"
  by (subst str_nat.simps) simp

lemma str_nat_inj: "str_nat n = str_nat m \<Longrightarrow> n = m"
proof (induction n arbitrary: m rule: str_nat.induct)
  case (1 n)
  show ?case
  proof (cases "n < 10")
    case n: True
    show ?thesis
    proof (cases "m < 10")
      case True
      then show ?thesis
        using n "1.prems" digit_char_inj [of n m]
        by (subst (asm) str_nat.simps, subst (asm) (2) str_nat.simps) simp
    next
      case False
      have "str_nat n = [digit_char n]"
        using n by (subst str_nat.simps) simp
      moreover have "str_nat m = str_nat (m div 10) @ [digit_char (m mod 10)]"
        using False by (subst str_nat.simps) simp
      ultimately show ?thesis
        using "1.prems" str_nat_not_Nil [of "m div 10"] by simp
    qed
  next
    case n: False
    have en: "str_nat n = str_nat (n div 10) @ [digit_char (n mod 10)]"
      using n by (subst str_nat.simps) simp
    show ?thesis
    proof (cases "m < 10")
      case True
      have "str_nat m = [digit_char m]"
        using True by (subst str_nat.simps) simp
      then show ?thesis
        using "1.prems" en str_nat_not_Nil [of "n div 10"] by simp
    next
      case False
      have em: "str_nat m = str_nat (m div 10) @ [digit_char (m mod 10)]"
        using False by (subst str_nat.simps) simp
      have "str_nat (n div 10) = str_nat (m div 10)"
        and d: "digit_char (n mod 10) = digit_char (m mod 10)"
        using "1.prems" en em by simp_all
      then have "n div 10 = m div 10"
        using "1.IH" [OF n] by blast
      moreover have "n mod 10 = m mod 10"
        using d by (intro digit_char_inj) simp_all
      ultimately show ?thesis
        by (metis div_mult_mod_eq)
    qed
  qed
qed

lemma round_half_even_bounds:
  "of_int (round_half_even x) \<le> x + 1 / 2 \<and> x - 1 / 2 \<le> of_int (round_half_even x)"
proof -
  define f where "f = \<lfloor>x\<rfloor>"
  have b: "of_int f \<le> x" "x < of_int f + 1"
    unfolding f_def by linarith+
  have r: "round_half_even x =
      (if x - of_int f < 1 / 2 then f
       else if 1 / 2 < x - of_int f then f + 1
       else if even f then f else f + 1)"
    by (simp add: round_half_even_def Let_def f_def)
  show ?thesis
    using b unfolding r by (auto split: if_splits)
qed

lemma round_half_even_nonneg: "0 \<le> x \<Longrightarrow> 0 \<le> round_half_even x"
proof -
  assume "0 \<le> x"
  then have "- 1 < (of_int (round_half_even x) :: rat)"
    using round_half_even_bounds [of x] by linarith
  then have "- 1 < round_half_even x"
    by (metis of_int_less_iff of_int_minus of_int_1)
  then show ?thesis by simp
qed

lemma round_half_even_separated:
  "x + 5 \<le> y \<Longrightarrow> round_half_even x < round_half_even y"
proof -
  assume "x + 5 \<le> y"
  then have "(of_int (round_half_even x) :: rat) < of_int (round_half_even y)"
    using round_half_even_bounds [of x] round_half_even_bounds [of y] by linarith
  then show ?thesis
    by (simp only: of_int_less_iff)
qed

lemma fmt0_nonneg: "0 \<le> x \<Longrightarrow> fmt0 (Finite x) = str_nat (nat (round_half_even x))"
  using round_half_even_nonneg [of x] by (simp add: str_int_def)

lemma fmt0_inj:
  "0 \<le> x \<Longrightarrow> 0 \<le> y \<Longrightarrow> fmt0 (Finite x) = fmt0 (Finite y)
   \<Longrightarrow> round_half_even x = round_half_even y"
proof -
  assume a: "0 \<le> x" "0 \<le> y" "fmt0 (Finite x) = fmt0 (Finite y)"
  then have "str_nat (nat (round_half_even x)) = str_nat (nat (round_half_even y))"
    by (simp only: fmt0_nonneg)
  then have "nat (round_half_even x) = nat (round_half_even y)"
    by (rule str_nat_inj)
  then show ?thesis
    using round_half_even_nonneg [OF a(1)] round_half_even_nonneg [OF a(2)] by simp
qed

lemma fmt0_no_percent: "0 \<le> x \<Longrightarrow> CHR ''%'' \<notin> set (fmt0 (Finite x))"
proof -
  assume "0 \<le> x"
  then have "set (fmt0 (Finite x)) \<subseteq> set ''0123456789''"
    using str_nat_digits by (simp only: fmt0_nonneg)
  then show ?thesis by auto
qed

lemma label_prefix:
  "CHR ''%'' \<notin> set a \<Longrightarrow> takeWhile (\<lambda>c. c \<noteq> CHR ''%'') (a @ ''%-'' @ b @ ''%'') = a"
  by (simp add: takeWhile_append)

section \<open>Properties of the pie diagram: the edges as bins\<close>

lemma make_bins_clamped:
  "\<exists>m s. clamp_min mv = Finite m \<and> 0 \<le> m \<and> m \<le> 100
      \<and> clamp_step sv = Finite s \<and> 5 \<le> s \<and> s \<le> 25
      \<and> make_bins (clamp_min mv) (clamp_step sv) = Some (map Finite (m # boundaries s m))"
proof -
  obtain m where m: "clamp_min mv = Finite m" "0 \<le> m" "m \<le> 100"
    using clamp_min_finite by blast
  obtain s where s: "clamp_step sv = Finite s" "5 \<le> s" "s \<le> 25"
    using clamp_step_finite by blast
  have pos: "0 < s" using s(2) by simp
  have "make_bins (clamp_min mv) (clamp_step sv) = Some (map Finite (m # boundaries s m))"
    unfolding make_bins_def m(1) s(1)
    using bins_loop_boundaries [OF pos, of m "[Finite m]"] by simp
  with m s show ?thesis by blast
qed

lemma edges_range:
  "0 \<le> m \<Longrightarrow> m \<le> 100 \<Longrightarrow> \<forall>x \<in> set (m # boundaries s m). 0 \<le> x \<and> x \<le> 100"
  using boundaries_bounds [of _ s m] by fastforce

lemma edges_step:
  "\<forall>i. Suc i < length (m # boundaries s m)
       \<longrightarrow> (m # boundaries s m) ! Suc i = min ((m # boundaries s m) ! i + s) 100"
  using boundaries_step by blast

lemma strict_sorted_nth_le:
  fixes bs :: "rat list"
  assumes "sorted_wrt (<) bs" and "i \<le> j" and "j < length bs"
  shows "bs ! i \<le> bs ! j"
proof (cases "i = j")
  case True
  then show ?thesis by simp
next
  case False
  then have "i < j" using assms(2) by simp
  from sorted_wrt_nth_less [OF assms(1) this assms(3)] show ?thesis by simp
qed

lemma edges_gap:
  fixes bs :: "rat list"
  assumes so: "sorted_wrt (<) bs"
    and rng: "\<forall>x \<in> set bs. 0 \<le> x \<and> x \<le> 100"
    and stp: "\<forall>i. Suc i < length bs \<longrightarrow> bs ! Suc i = min (bs ! i + s) 100"
    and ij: "i < j" "Suc j < length bs"
  shows "bs ! i + s \<le> bs ! j"
proof -
  have si: "Suc i < length bs" using ij by simp
  have "bs ! Suc j \<in> set bs"
    using ij(2) by (rule nth_mem)
  then have "bs ! Suc j \<le> 100"
    using rng by blast
  moreover have "bs ! j < bs ! Suc j"
    using so _ ij(2) by (rule sorted_wrt_nth_less) simp
  moreover have le: "bs ! Suc i \<le> bs ! j"
    using so _ _ by (rule strict_sorted_nth_le) (use ij in simp_all)
  ultimately have "bs ! Suc i < 100" by simp
  moreover have "bs ! Suc i = min (bs ! i + s) 100"
    using si stp by blast
  ultimately have "bs ! Suc i = bs ! i + s"
    by (simp add: min_def split: if_splits)
  then show ?thesis
    using le by simp
qed

lemma range_labels_Finite:
  "range_labels (map Finite bs) =
     map (\<lambda>i. fmt0 (Finite (bs ! i)) @ ''%-'' @ fmt0 (Finite (bs ! Suc i)) @ ''%'')
       [0..<length bs - 1]"
  by (simp add: range_labels_def)

lemma range_labels_distinct:
  fixes bs :: "rat list"
  assumes so: "sorted_wrt (<) bs"
    and rng: "\<forall>x \<in> set bs. 0 \<le> x \<and> x \<le> 100"
    and stp: "\<forall>i. Suc i < length bs \<longrightarrow> bs ! Suc i = min (bs ! i + s) 100"
    and s5: "5 \<le> s"
  shows "distinct (range_labels (map Finite bs))"
proof -
  let ?L = "\<lambda>i. fmt0 (Finite (bs ! i)) @ ''%-'' @ fmt0 (Finite (bs ! Suc i)) @ ''%''"
  have nonneg: "0 \<le> bs ! i" if "i < length bs" for i
    using rng nth_mem [OF that] by blast
  have sep: "round_half_even (bs ! i) < round_half_even (bs ! j)"
    if "i < j" "Suc j < length bs" for i j
  proof -
    have "bs ! i + s \<le> bs ! j"
      using so rng stp that by (rule edges_gap)
    then have "bs ! i + 5 \<le> bs ! j"
      using s5 by simp
    then show ?thesis by (rule round_half_even_separated)
  qed
  have key: "round_half_even (bs ! i) = round_half_even (bs ! j)"
    if "Suc i < length bs" "Suc j < length bs" "?L i = ?L j" for i j
  proof -
    have ni: "0 \<le> bs ! i" and nj: "0 \<le> bs ! j"
      using that nonneg by simp_all
    have ti: "takeWhile (\<lambda>c. c \<noteq> CHR ''%'') (?L i) = fmt0 (Finite (bs ! i))"
      using ni by (intro label_prefix fmt0_no_percent)
    have tj: "takeWhile (\<lambda>c. c \<noteq> CHR ''%'') (?L j) = fmt0 (Finite (bs ! j))"
      using nj by (intro label_prefix fmt0_no_percent)
    have "fmt0 (Finite (bs ! i)) = fmt0 (Finite (bs ! j))"
      using ti tj that(3) by (simp only:)
    then show ?thesis
      using ni nj by (intro fmt0_inj)
  qed
  have "inj_on ?L (set [0..<length bs - 1])"
  proof (rule inj_onI)
    fix i j
    assume a: "i \<in> set [0..<length bs - 1]" "j \<in> set [0..<length bs - 1]" "?L i = ?L j"
    then have b: "Suc i < length bs" "Suc j < length bs"
      by auto
    have e: "round_half_even (bs ! i) = round_half_even (bs ! j)"
      using b a(3) by (rule key)
    show "i = j"
    proof (rule ccontr)
      assume "i \<noteq> j"
      then consider "i < j" | "j < i" by linarith
      then show False
        using sep [of i j] sep [of j i] b e by cases simp_all
    qed
  qed
  then have "distinct (map ?L [0..<length bs - 1])"
    by (simp only: distinct_map distinct_upt simp_thms)
  then show ?thesis
    by (simp only: range_labels_Finite)
qed

lemma not_decreasing_step: "sorted_wrt (<) bs \<Longrightarrow> \<not> decreasing_step (map Finite bs)"
proof (induction bs)
  case Nil
  then show ?case by simp
next
  case (Cons a bs)
  then show ?case by (cases bs) auto
qed

lemma strict_sorted_distinct_Finite: "sorted_wrt (<) bs \<Longrightarrow> distinct (map Finite bs)"
proof -
  assume "sorted_wrt (<) bs"
  then have "distinct bs"
    by (simp add: strict_sorted_iff)
  then show ?thesis
    by (simp add: distinct_map inj_on_def)
qed

lemma pd_cut_edges:
  fixes bs :: "rat list"
  assumes so: "sorted_wrt (<) bs"
    and rng: "\<forall>x \<in> set bs. 0 \<le> x \<and> x \<le> 100"
    and stp: "\<forall>i. Suc i < length bs \<longrightarrow> bs ! Suc i = min (bs ! i + s) 100"
    and s5: "5 \<le> s"
    and ne: "bs \<noteq> []"
  shows "pd_cut xs (map Finite bs) (range_labels (map Finite bs))
         = Inr (map (cut_code (map Finite bs)) xs)"
proof -
  let ?bins = "map Finite bs"
  have a: "\<not> decreasing_step ?bins"
    using so by (rule not_decreasing_step)
  have "distinct ?bins"
    using so by (rule strict_sorted_distinct_Finite)
  then have b: "remdups ?bins = ?bins"
    by (rule distinct_remdups_id)
  have "distinct (range_labels ?bins)"
    using so rng stp s5 by (rule range_labels_distinct)
  then have c: "remdups (range_labels ?bins) = range_labels ?bins"
    by (rule distinct_remdups_id)
  have d: "Suc (length (range_labels ?bins)) = length ?bins"
    using ne by (simp add: range_labels_def)
  show ?thesis
    unfolding pd_cut_def using a d by (simp only: b c) simp
qed

lemma searchsorted_left_Finite:
  "searchsorted_left (map Finite bs) (Finite x) = length (takeWhile (\<lambda>b. b < x) bs)"
  by (simp add: searchsorted_left_def takeWhile_map comp_def)

lemma takeWhile_strict_sorted:
  fixes bs :: "rat list"
  assumes so: "sorted_wrt (<) bs" and k: "Suc k < length bs"
    and lo: "bs ! k < x" and hi: "x \<le> bs ! Suc k"
  shows "length (takeWhile (\<lambda>b. b < x) bs) = Suc k"
proof -
  have "takeWhile (\<lambda>b. b < x) bs = take (Suc k) bs"
  proof (rule takeWhile_eq_take_P_nth)
    fix i assume "i < Suc k" "i < length bs"
    then have "bs ! i \<le> bs ! k"
      using so k by (intro strict_sorted_nth_le) simp_all
    then show "bs ! i < x" using lo by simp
  next
    show "\<not> bs ! Suc k < x" using hi by simp
  qed
  then show ?thesis using k by simp
qed

lemma cut_code_in_bucket:
  fixes bs :: "rat list"
  assumes so: "sorted_wrt (<) bs" and i: "Suc i < length bs" and b: "in_bucket bs i x"
  shows "cut_code (map Finite bs) x = Some i"
proof (cases "x = bs ! 0")
  case True
  have "bs ! 0 \<le> bs ! i"
    using so _ _ by (rule strict_sorted_nth_le) (use i in simp_all)
  then have "i = 0"
    using b True by (auto simp: in_bucket_def split: if_splits)
  moreover obtain b0 rest where "bs = b0 # rest"
    using i by (cases bs) auto
  ultimately show ?thesis
    using True i by (simp add: cut_code_def)
next
  case False
  then have lo: "bs ! i < x"
    using b by (cases "i = 0") (auto simp: in_bucket_def)
  have hi: "x \<le> bs ! Suc i"
    using b by (simp add: in_bucket_def)
  have n: "length (takeWhile (\<lambda>b. b < x) bs) = Suc i"
    using so i lo hi by (rule takeWhile_strict_sorted)
  obtain b0 rest where br: "bs = b0 # rest"
    using i by (cases bs) auto
  have "x \<noteq> b0" using False br by simp
  then show ?thesis
    using i n searchsorted_left_Finite [of bs x] unfolding br cut_code_def
    by (simp add: Let_def)
qed

lemma in_bucket_unique:
  fixes bs :: "rat list"
  assumes so: "sorted_wrt (<) bs" and i: "Suc i < length bs" and j: "Suc j < length bs"
    and bi: "in_bucket bs i x" and bj: "in_bucket bs j x"
  shows "i = j"
proof -
  have "cut_code (map Finite bs) x = Some i"
    using so i bi by (rule cut_code_in_bucket)
  moreover have "cut_code (map Finite bs) x = Some j"
    using so j bj by (rule cut_code_in_bucket)
  ultimately show ?thesis by simp
qed

lemma cut_code_Some_iff:
  fixes bs :: "rat list"
  assumes so: "sorted_wrt (<) bs"
  shows "(cut_code (map Finite bs) x = Some i) = (Suc i < length bs \<and> in_bucket bs i x)"
proof
  assume "Suc i < length bs \<and> in_bucket bs i x"
  then show "cut_code (map Finite bs) x = Some i"
    using so cut_code_in_bucket by blast
next
  assume c: "cut_code (map Finite bs) x = Some i"
  then obtain b0 rest where br: "bs = b0 # rest"
    by (cases bs) (auto simp: cut_code_def)
  show "Suc i < length bs \<and> in_bucket bs i x"
  proof (cases "x = b0")
    case True
    then have "i = 0" "length bs \<noteq> 1"
      using c br by (auto simp: cut_code_def split: if_splits)
    then have l: "Suc 0 < length bs" using br by (cases rest) auto
    have "bs ! 0 < bs ! Suc 0"
      using so _ l by (rule sorted_wrt_nth_less) simp
    then show ?thesis
      using True br l \<open>i = 0\<close> by (simp add: in_bucket_def)
  next
    case False
    let ?n = "length (takeWhile (\<lambda>b. b < x) bs)"
    have n: "?n = Suc i" "?n \<noteq> length bs"
      using c False searchsorted_left_Finite [of bs x] unfolding br cut_code_def
      by (auto simp: Let_def split: if_splits)
    have le: "?n \<le> length bs" by (rule length_takeWhile_le)
    then have lt: "Suc i < length bs" using n by simp
    have "i < ?n" using n by simp
    then have lo: "bs ! i < x"
      using nth_length_takeWhile
      by (metis (no_types, lifting) nth_mem set_takeWhileD takeWhile_nth)
    have "\<not> bs ! ?n < x"
      using le n(2) by (intro nth_length_takeWhile) simp
    then have hi: "x \<le> bs ! Suc i" using n(1) by simp
    have "bs ! 0 \<le> bs ! i"
      using so _ _ by (rule strict_sorted_nth_le) (use lt in simp_all)
    then have "bs ! 0 \<le> x" using lo by simp
    then show ?thesis
      using lt lo hi by (simp add: in_bucket_def)
  qed
qed

lemma value_counts_cut:
  "value_counts labels (map f xs) =
     map (\<lambda>i. (labels ! i, length (filter (\<lambda>x. f x = Some i) xs))) [0..<length labels]"
  by (simp add: value_counts_def filter_map comp_def)

lemma map_Finite_eq: "map Finite xs = map Finite ys \<Longrightarrow> xs = ys"
proof -
  assume "map Finite xs = map Finite ys"
  moreover have "inj Finite" by (simp add: inj_def)
  ultimately show ?thesis by (simp only: inj_map_eq_map)
qed

lemma make_bins_edges:
  assumes mk: "make_bins (clamp_min mv) (clamp_step sv) = Some (map Finite bs)"
  shows "\<exists>s. 5 \<le> s \<and> bs \<noteq> [] \<and> sorted_wrt (<) bs \<and> last bs = 100
           \<and> clamp_min mv = Finite (hd bs)
           \<and> (\<forall>x \<in> set bs. 0 \<le> x \<and> x \<le> 100)
           \<and> (\<forall>i. Suc i < length bs \<longrightarrow> bs ! Suc i = min (bs ! i + s) 100)"
proof -
  from make_bins_clamped [of mv sv] obtain m s where
    ms: "clamp_min mv = Finite m" "0 \<le> m" "m \<le> 100" "5 \<le> s"
      "make_bins (clamp_min mv) (clamp_step sv) = Some (map Finite (m # boundaries s m))"
    by blast
  have bs: "bs = m # boundaries s m"
    using mk ms(5) by (intro map_Finite_eq) simp
  have "0 < s" using ms(4) by simp
  then have "last bs = 100"
    unfolding bs using ms(3) by (rule boundaries_last)
  moreover have "sorted_wrt (<) bs"
    unfolding bs by (rule boundaries_sorted)
  moreover have "\<forall>x \<in> set bs. 0 \<le> x \<and> x \<le> 100"
    unfolding bs using ms(2,3) by (rule edges_range)
  moreover have "\<forall>i. Suc i < length bs \<longrightarrow> bs ! Suc i = min (bs ! i + s) 100"
    unfolding bs by (rule edges_step)
  moreover have "bs \<noteq> []" "clamp_min mv = Finite (hd bs)"
    using ms(1) by (simp_all add: bs)
  ultimately show ?thesis
    using ms(4) by blast
qed

lemma range_distribution_try_unfold:
  assumes mk: "make_bins (clamp_min mv) (clamp_step sv) = Some (map Finite bs)"
  shows "range_distribution_try pie (Inr mv) (Inr sv) rows =
     (if length bs - 1 = 0
      then Some (Inr (RangeText ''Keine Daten in den angegebenen Bereichen''))
      else (case pie \<lparr> p_values = map (\<lambda>i. length (filter (\<lambda>r. in_bucket bs i (enrolment_rate r)) rows))
                                   [0..<length bs - 1],
                       p_labels = range_labels (map Finite bs), p_explode = None \<rparr> of
              Some e \<Rightarrow> Some (Inl e)
            | None \<Rightarrow> Some (Inr (RangePie
                 \<lparr> p_values = map (\<lambda>i. length (filter (\<lambda>r. in_bucket bs i (enrolment_rate r)) rows))
                                   [0..<length bs - 1],
                   p_labels = range_labels (map Finite bs), p_explode = None \<rparr>
                 (clamp_min mv) (clamp_step sv)))))"
proof -
  let ?bins = "map Finite bs"
  let ?labels = "range_labels ?bins"
  let ?n = "length bs - 1"
  let ?xs = "map enrolment_rate rows"
  from make_bins_edges [OF mk] obtain s where
    e: "5 \<le> s" "bs \<noteq> []" "sorted_wrt (<) bs" "\<forall>x \<in> set bs. 0 \<le> x \<and> x \<le> 100"
       "\<forall>i. Suc i < length bs \<longrightarrow> bs ! Suc i = min (bs ! i + s) 100"
    by blast
  have len: "length ?labels = ?n"
    by (simp add: range_labels_def)
  have cut: "pd_cut ?xs ?bins ?labels = Inr (map (cut_code ?bins) ?xs)"
    using e(3,4,5,1,2) by (rule pd_cut_edges)
  have vc: "value_counts ?labels (map (cut_code ?bins) ?xs)
      = map (\<lambda>i. (?labels ! i, length (filter (\<lambda>x. cut_code ?bins x = Some i) ?xs))) [0..<?n]"
    by (simp only: value_counts_cut len)
  have "length (filter (\<lambda>x. cut_code ?bins x = Some i) ?xs)
      = length (filter (\<lambda>r. in_bucket bs i (enrolment_rate r)) rows)" if "i < ?n" for i
  proof -
    have "Suc i < length bs" using that by simp
    then have "(cut_code ?bins x = Some i) = in_bucket bs i x" for x
      using cut_code_Some_iff [OF e(3)] by simp
    then show ?thesis
      by (simp add: filter_map comp_def)
  qed
  then have vals: "map snd (value_counts ?labels (map (cut_code ?bins) ?xs))
      = map (\<lambda>i. length (filter (\<lambda>r. in_bucket bs i (enrolment_rate r)) rows)) [0..<?n]"
    unfolding vc by simp
  have "map fst (value_counts ?labels (map (cut_code ?bins) ?xs)) = map (\<lambda>i. ?labels ! i) [0..<length ?labels]"
    unfolding vc by (simp add: len)
  then have labs: "map fst (value_counts ?labels (map (cut_code ?bins) ?xs)) = ?labels"
    by (simp only: map_nth)
  have cnt: "length (value_counts ?labels (map (cut_code ?bins) ?xs)) = ?n"
    unfolding vc by simp
  show ?thesis
    unfolding range_distribution_try_def
    by (simp only: sum.case mk option.case cut Let_def vals labs cnt)
qed

section \<open>Properties of the pie diagram: the distribution over ranges\<close>

lemma create_range_distribution_chart_unfold:
  assumes mk: "make_bins (clamp_min mv) (clamp_step sv) = Some (map Finite bs)"
  shows "create_range_distribution_chart pie (Inr mv) (Inr sv) rows =
     (if length bs - 1 = 0
      then Some (Inr (RangeText ''Keine Daten in den angegebenen Bereichen''))
      else (case pie \<lparr> p_values = map (\<lambda>i. length (filter (\<lambda>r. in_bucket bs i (enrolment_rate r)) rows))
                                   [0..<length bs - 1],
                       p_labels = range_labels (map Finite bs), p_explode = None \<rparr> of
              Some e \<Rightarrow> Some (Inr (RangeText
                 (''Fehler bei der Diagrammerstellung:'' @ [CHR 0x0A] @ str_error e)))
            | None \<Rightarrow> Some (Inr (RangePie
                 \<lparr> p_values = map (\<lambda>i. length (filter (\<lambda>r. in_bucket bs i (enrolment_rate r)) rows))
                                   [0..<length bs - 1],
                   p_labels = range_labels (map Finite bs), p_explode = None \<rparr>
                 (clamp_min mv) (clamp_step sv)))))"
  unfolding create_range_distribution_chart_def range_distribution_try_unfold [OF mk]
  by (simp split: option.splits)




lemma no_data_iff_min_100:
  "(create_range_distribution_chart pie (Inr mv) (Inr sv) rows
      = Some (Inr (RangeText ''Keine Daten in den angegebenen Bereichen'')))
   = (clamp_min mv = Finite 100)"
proof -
  from make_bins_clamped [of mv sv] obtain m s where
    ms: "clamp_min mv = Finite m" "m \<le> 100" "5 \<le> s"
      "make_bins (clamp_min mv) (clamp_step sv) = Some (map Finite (m # boundaries s m))"
    by blast
  show ?thesis
  proof (cases "m = 100")
    case True
    then have "boundaries s m = []"
      by (subst boundaries.simps) simp
    then show ?thesis
      using True ms(1) by (simp add: create_range_distribution_chart_unfold [OF ms(4)])
  next
    case False
    then have "boundaries s m \<noteq> []"
      using ms(2,3) by (subst boundaries.simps) simp
    then have "length (m # boundaries s m) - 1 \<noteq> 0"
      by simp
    then show ?thesis
      using False ms(1)
      by (simp add: create_range_distribution_chart_unfold [OF ms(4)] split: option.splits)
  qed
qed

text \<open>
  C5 (the code departs from the claim). When all rates lie outside the ranges, here 10
  and 45 with the minimum 60 and the step 10, the chart is not the text "Keine Daten in
  den angegebenen Bereichen": \<^verbatim>\<open>value_counts\<close> of a categorical series lists every
  bucket, also with the count 0, so \<^verbatim>\<open>len(range_counts)\<close> is 4 and the four zero counts
  are handed to \<^verbatim>\<open>ax.pie\<close>: the chart is the pie of these counts if the renderer accepts
  them, and the error text if it raises. By lemma \<open>no_data_iff_min_100\<close> the text is
  reached only when there is no bucket at all, that is when the clamped minimum is 100.
\<close>

theorem range_no_data_missed:
  "create_range_distribution_chart (\<lambda>call. None) (Inr (Finite 60)) (Inr (Finite 10)) low_rates
     = Some (Inr (RangePie
         \<lparr> p_values = [0, 0, 0, 0],
           p_labels = [''60%-70%'', ''70%-80%'', ''80%-90%'', ''90%-100%''],
           p_explode = None \<rparr> (Finite 60) (Finite 10)))
   \<and> create_range_distribution_chart (\<lambda>call. Some (ValueError ''nan''))
         (Inr (Finite 60)) (Inr (Finite 10)) low_rates
     = Some (Inr (RangeText (''Fehler bei der Diagrammerstellung:'' @ [CHR 0x0A] @ ''nan'')))"
  by code_simp

text \<open>
  C6. For every outcome of reading the two parameters, every dataset and every
  behaviour of the renderer, \<^verbatim>\<open>create_range_distribution_chart\<close> returns normally with
  some content in the axes: the loop ends and no exception leaves the method. When the
  minimum or the step is not a number, the content is the error text with the message
  of the exception; so it is when the renderer raises.
\<close>

theorem range_distribution_never_raises:
  "(\<exists>ax. create_range_distribution_chart pie min_in step_in rows = Some (Inr ax))
   \<and> create_range_distribution_chart pie (Inl e) step_in rows
       = Some (Inr (RangeText (''Fehler bei der Diagrammerstellung:'' @ [CHR 0x0A] @ str_error e)))
   \<and> create_range_distribution_chart pie (Inr mv) (Inl e) rows
       = Some (Inr (RangeText (''Fehler bei der Diagrammerstellung:'' @ [CHR 0x0A] @ str_error e)))
   \<and> create_range_distribution_chart (\<lambda>call. Some e) (Inr mv) (Inr sv) rows
       = Some (Inr (RangeText
           (if clamp_min mv = Finite 100 then ''Keine Daten in den angegebenen Bereichen''
            else ''Fehler bei der Diagrammerstellung:'' @ [CHR 0x0A] @ str_error e)))"
proof -
  have l: "create_range_distribution_chart pie (Inl e) step_in rows
       = Some (Inr (RangeText (''Fehler bei der Diagrammerstellung:'' @ [CHR 0x0A] @ str_error e)))"
    for pie e step_in
    by (simp add: create_range_distribution_chart_def range_distribution_try_def)
  have r: "create_range_distribution_chart pie (Inr mv) (Inl e) rows
       = Some (Inr (RangeText (''Fehler bei der Diagrammerstellung:'' @ [CHR 0x0A] @ str_error e)))"
    for pie e mv
    by (simp add: create_range_distribution_chart_def range_distribution_try_def)
  have b: "\<exists>ax. create_range_distribution_chart pie (Inr mv) (Inr sv) rows = Some (Inr ax)"
    for pie mv sv
  proof -
    from make_bins_clamped [of mv sv] obtain m s where
      mk: "make_bins (clamp_min mv) (clamp_step sv) = Some (map Finite (m # boundaries s m))"
      by blast
    show ?thesis
      unfolding create_range_distribution_chart_unfold [OF mk]
      by (simp split: option.splits)
  qed
  have a: "\<exists>ax. create_range_distribution_chart pie min_in step_in rows = Some (Inr ax)"
  proof (cases min_in)
    case (Inl e)
    then show ?thesis using l by simp
  next
    case mv: (Inr mv)
    show ?thesis
    proof (cases step_in)
      case (Inl e)
      then show ?thesis using mv r by simp
    next
      case (Inr sv)
      then show ?thesis using mv b by simp
    qed
  qed
  have p: "create_range_distribution_chart (\<lambda>call. Some e) (Inr mv) (Inr sv) rows
       = Some (Inr (RangeText
           (if clamp_min mv = Finite 100 then ''Keine Daten in den angegebenen Bereichen''
            else ''Fehler bei der Diagrammerstellung:'' @ [CHR 0x0A] @ str_error e)))"
  proof (cases "clamp_min mv = Finite 100")
    case True
    then show ?thesis
      using no_data_iff_min_100 [of "\<lambda>call. Some e" mv sv rows] by simp
  next
    case False
    from make_bins_clamped [of mv sv] obtain m s where
      ms: "clamp_min mv = Finite m" "m \<le> 100" "5 \<le> s"
        "make_bins (clamp_min mv) (clamp_step sv) = Some (map Finite (m # boundaries s m))"
      by blast
    have "m < 100" using False ms(1,2) by simp
    then have "boundaries s m \<noteq> []"
      using ms(3) by (subst boundaries.simps) simp
    then have "length (m # boundaries s m) - 1 \<noteq> 0"
      by simp
    then show ?thesis
      using False by (simp add: create_range_distribution_chart_unfold [OF ms(4)])
  qed
  show ?thesis
    using a l r p by (intro conjI)
qed

end
